theory Spec2Isabelle
  imports Complex_Main "HOL-Library.Word"
begin

section \<open>Python values, exceptions and the process outcome\<close>

text \<open>
  \<^verbatim>\<open>list2base58.py\<close> turns a list of 32 or 64 byte-sized integers into a base58
  string. The program is untyped at run time: \<^verbatim>\<open>json.loads\<close> and
  \<^verbatim>\<open>ast.literal_eval\<close> hand back whatever the text denotes, so the embedding works
  on a datatype of the Python values those two parsers can produce. A Python \<^verbatim>\<open>str\<close>
  is a \<^typ>\<open>string\<close>, each \<^typ>\<open>char\<close> standing for the code point of the same
  number (the model covers text in the range U+0000 to U+00FF); a \<^verbatim>\<open>bytes\<close> object is a
  list of 8-bit words.
\<close>

type_synonym byte = "8 word"

text \<open>A float is its exact value, or one of the three special values.\<close>

datatype pyfloat = Finite rat | PosInf | NegInf | NaN

datatype pyval =
    PyNone
  | PyEllipsis
  | PyBool bool
  | PyInt int
  | PyFloat pyfloat
  | PyComplex pyfloat pyfloat
  | PyStr string
  | PyBytes "byte list"
  | PyList "pyval list"
  | PyTuple "pyval list"
  | PySet "pyval list"
  | PyDict "(pyval \<times> pyval) list"

text \<open>
  A set carries its elements in iteration order, a dict its items in insertion order.
  An exception is its class and \<^verbatim>\<open>str(e)\<close>; the classes the program raises itself
  have constructors of their own, every other class (\<^verbatim>\<open>OSError\<close>, \<^verbatim>\<open>SyntaxError\<close>,
  \<^verbatim>\<open>JSONDecodeError\<close>, ...) is named by a string.
\<close>

datatype exn = ValueError string | TypeError string | OtherException string string

fun exn_str :: "exn \<Rightarrow> string" where
  "exn_str (ValueError m) = m"
| "exn_str (TypeError m) = m"
| "exn_str (OtherException c m) = m"

record outcome =
  stdout :: string
  stderr :: string
  exit_code :: nat

section \<open>Builtins used by the encoder\<close>

text \<open>\<^verbatim>\<open>type(v).__name__\<close>, as it appears in the messages of \<^verbatim>\<open>TypeError\<close>.\<close>

fun type_name :: "pyval \<Rightarrow> string" where
  "type_name PyNone = ''NoneType''"
| "type_name PyEllipsis = ''ellipsis''"
| "type_name (PyBool b) = ''bool''"
| "type_name (PyInt i) = ''int''"
| "type_name (PyFloat f) = ''float''"
| "type_name (PyComplex re im) = ''complex''"
| "type_name (PyStr s) = ''str''"
| "type_name (PyBytes bs) = ''bytes''"
| "type_name (PyList xs) = ''list''"
| "type_name (PyTuple xs) = ''tuple''"
| "type_name (PySet xs) = ''set''"
| "type_name (PyDict kvs) = ''dict''"

text \<open>\<^verbatim>\<open>str(n)\<close> for a natural number: its decimal digits.\<close>

definition digit_char :: "nat \<Rightarrow> char" where
  "digit_char d = ''0123456789'' ! d"

function str_nat :: "nat \<Rightarrow> string" where
  "str_nat n = (if n < 10 then [digit_char n] else str_nat (n div 10) @ [digit_char (n mod 10)])"
  by pat_completeness auto
termination
  by (relation "measure id") auto

declare str_nat.simps [simp del]

text \<open>The number a string of decimal digits denotes, to read such a string back.\<close>

definition decimal_value :: "string \<Rightarrow> nat" where
  "decimal_value s = foldl (\<lambda>a c. a * 10 + (of_char c - 48)) 0 s"

text \<open>\<^verbatim>\<open>len(v)\<close>: the sized types have a length, every other type raises.\<close>

fun py_len :: "pyval \<Rightarrow> exn + nat" where
  "py_len (PyStr s) = Inr (length s)"
| "py_len (PyBytes bs) = Inr (length bs)"
| "py_len (PyList xs) = Inr (length xs)"
| "py_len (PyTuple xs) = Inr (length xs)"
| "py_len (PySet xs) = Inr (length xs)"
| "py_len (PyDict kvs) = Inr (length kvs)"
| "py_len v = Inl (TypeError (''object of type '' @ [CHR 0x27] @ type_name v @ [CHR 0x27] @ '' has no len()''))"

text \<open>
  The items \<^verbatim>\<open>for n in v\<close> visits, for the sized types: the characters of a string as
  one-character strings, the bytes of a bytes object as integers, the keys of a dict.
\<close>

fun py_items :: "pyval \<Rightarrow> pyval list" where
  "py_items (PyStr s) = map (\<lambda>c. PyStr [c]) s"
| "py_items (PyBytes bs) = map (\<lambda>b. PyInt (uint b)) bs"
| "py_items (PyList xs) = xs"
| "py_items (PyTuple xs) = xs"
| "py_items (PySet xs) = xs"
| "py_items (PyDict kvs) = map fst kvs"
| "py_items v = []"

text \<open>
  The chained comparison \<^verbatim>\<open>0 <= n <= 255\<close>. Integers, booleans (\<^verbatim>\<open>True\<close> is 1) and
  floats compare with an integer, a comparison with NaN is false, and every other type
  raises at the first comparison \<^verbatim>\<open>0 <= n\<close>.
\<close>

fun in_byte_range :: "pyval \<Rightarrow> exn + bool" where
  "in_byte_range (PyInt i) = Inr (0 \<le> i \<and> i \<le> 255)"
| "in_byte_range (PyBool b) = Inr True"
| "in_byte_range (PyFloat (Finite q)) = Inr (0 \<le> q \<and> q \<le> 255)"
| "in_byte_range (PyFloat f) = Inr False"
| "in_byte_range v =
     Inl (TypeError ([CHR 0x27] @ ''<='' @ [CHR 0x27] @ '' not supported between instances of ''
        @ [CHR 0x27] @ ''int'' @ [CHR 0x27] @ '' and '' @ [CHR 0x27] @ type_name v @ [CHR 0x27]))"

text \<open>
  \<^verbatim>\<open>any(not (0 <= n <= 255) for n in int_list)\<close>: the generator is consumed in order
  and stops at the first item out of range; an item that cannot be compared raises when
  it is reached.
\<close>

fun any_out_of_range :: "pyval list \<Rightarrow> exn + bool" where
  "any_out_of_range [] = Inr False"
| "any_out_of_range (n # ns) =
     (case in_byte_range n of
        Inl e \<Rightarrow> Inl e
      | Inr ok \<Rightarrow> if \<not> ok then Inr True else any_out_of_range ns)"

text \<open>
  \<^verbatim>\<open>bytes(v)\<close>. An item of an iterable must be an integer (or a boolean) in
  \<^verbatim>\<open>range(256)\<close>.
\<close>

fun byte_of_item :: "pyval \<Rightarrow> exn + byte" where
  "byte_of_item (PyInt i) =
     (if 0 \<le> i \<and> i < 256 then Inr (word_of_int i)
      else Inl (ValueError ''bytes must be in range(0, 256)''))"
| "byte_of_item (PyBool b) = Inr (if b then 1 else 0)"
| "byte_of_item v =
     Inl (TypeError ([CHR 0x27] @ type_name v @ [CHR 0x27] @ '' object cannot be interpreted as an integer''))"

fun bytes_of_items :: "pyval list \<Rightarrow> exn + byte list" where
  "bytes_of_items [] = Inr []"
| "bytes_of_items (n # ns) =
     (case byte_of_item n of
        Inl e \<Rightarrow> Inl e
      | Inr b \<Rightarrow> (case bytes_of_items ns of Inl e \<Rightarrow> Inl e | Inr bs \<Rightarrow> Inr (b # bs)))"

fun py_bytes :: "pyval \<Rightarrow> exn + byte list" where
  "py_bytes (PyStr s) = Inl (TypeError ''string argument without an encoding'')"
| "py_bytes (PyBytes bs) = Inr bs"
| "py_bytes (PyList xs) = bytes_of_items xs"
| "py_bytes (PyTuple xs) = bytes_of_items xs"
| "py_bytes (PySet xs) = bytes_of_items xs"
| "py_bytes (PyDict kvs) = bytes_of_items (map fst kvs)"
| "py_bytes (PyInt i) =
     (if i < 0 then Inl (ValueError ''negative count'') else Inr (replicate (nat i) 0))"
| "py_bytes (PyBool b) = Inr (replicate (if b then 1 else 0) 0)"
| "py_bytes v =
     Inl (TypeError (''cannot convert '' @ [CHR 0x27] @ type_name v @ [CHR 0x27] @ '' object to bytes''))"

section \<open>Base58\<close>

text \<open>
  Modelled from the spec: the \<^verbatim>\<open>base58\<close> package the program imports is a third-party
  library, not a file of the repository. The spec asks for standard base58 encoding of
  the raw bytes (Bitcoin/IPFS alphabet, no checksum, no version byte): the leading zero
  bytes become as many copies of the first letter of the alphabet, and the rest, read as
  a big-endian number, is written in base 58, most significant digit first. The
  definitions below follow the reference encoder \<^verbatim>\<open>b58encode\<close> and its inverse
  \<^verbatim>\<open>b58decode\<close> step by step.
\<close>

definition alphabet :: string where
  "alphabet = ''123456789ABCDEFGHJKLMNPQRSTUVWXYZabcdefghijkmnopqrstuvwxyz''"

text \<open>\<^verbatim>\<open>while i: i, idx = divmod(i, base); string = alphabet[idx:idx+1] + string\<close>\<close>

function b58encode_loop :: "nat \<Rightarrow> string \<Rightarrow> string" where
  "b58encode_loop i string =
     (if i = 0 then string
      else b58encode_loop (i div 58) (alphabet ! (i mod 58) # string))"
  by pat_completeness auto
termination
  by (relation "measure fst") auto

declare b58encode_loop.simps [simp del]

definition b58encode_int :: "nat \<Rightarrow> bool \<Rightarrow> string" where
  "b58encode_int i default_one =
     (if i = 0 \<and> default_one then [alphabet ! 0] else b58encode_loop i [])"

text \<open>\<^verbatim>\<open>int.from_bytes(v, byteorder='big')\<close>\<close>

definition from_bytes :: "byte list \<Rightarrow> nat" where
  "from_bytes v = foldl (\<lambda>acc b. acc * 256 + unat b) 0 v"

definition b58encode :: "byte list \<Rightarrow> string" where
  "b58encode v =
     (let origlen = length v;
          v' = dropWhile (\<lambda>b. b = 0) v;
          newlen = length v';
          acc = from_bytes v';
          result = b58encode_int acc False
      in replicate (origlen - newlen) (alphabet ! 0) @ result)"

text \<open>
  \<^verbatim>\<open>str.isspace\<close> for the code points below 256, which is what \<^verbatim>\<open>str.strip\<close>,
  \<^verbatim>\<open>str.rstrip\<close> and \<^verbatim>\<open>str.split\<close> with no argument take for whitespace.
\<close>

definition is_space :: "char \<Rightarrow> bool" where
  "is_space c =
     (let n = (of_char c :: nat)
      in (9 \<le> n \<and> n \<le> 13) \<or> (28 \<le> n \<and> n \<le> 32) \<or> n = 133 \<or> n = 160)"

definition py_lstrip :: "string \<Rightarrow> string" where
  "py_lstrip s = dropWhile is_space s"

definition py_rstrip :: "string \<Rightarrow> string" where
  "py_rstrip s = rev (dropWhile is_space (rev s))"

definition py_strip :: "string \<Rightarrow> string" where
  "py_strip s = py_lstrip (py_rstrip s)"

text \<open>The decoder's table \<^verbatim>\<open>{char: index for index, char in enumerate(alphabet)}\<close>.\<close>

definition decode_map :: "char \<rightharpoonup> nat" where
  "decode_map = map_of (zip alphabet [0..<length alphabet])"

text \<open>
  \<^verbatim>\<open>for char in v: decimal = decimal * base + map[char]\<close>; a character outside the
  alphabet raises, which is \<^const>\<open>None\<close> here.
\<close>

fun b58decode_loop :: "nat \<Rightarrow> string \<Rightarrow> nat option" where
  "b58decode_loop decimal [] = Some decimal"
| "b58decode_loop decimal (c # cs) =
     (case decode_map c of
        None \<Rightarrow> None
      | Some d \<Rightarrow> b58decode_loop (decimal * 58 + d) cs)"

definition b58decode_int :: "string \<Rightarrow> nat option" where
  "b58decode_int v = b58decode_loop 0 (py_rstrip v)"

text \<open>\<^verbatim>\<open>int.bit_length()\<close> and \<^verbatim>\<open>int.to_bytes(length, 'big')\<close> (which raises when the
  number does not fit).\<close>

function bit_length :: "nat \<Rightarrow> nat" where
  "bit_length n = (if n = 0 then 0 else Suc (bit_length (n div 2)))"
  by pat_completeness auto
termination
  by (relation "measure id") auto

declare bit_length.simps [simp del]

fun be_bytes :: "nat \<Rightarrow> nat \<Rightarrow> byte list" where
  "be_bytes 0 n = []"
| "be_bytes (Suc k) n = be_bytes k (n div 256) @ [of_nat (n mod 256)]"

definition to_bytes :: "nat \<Rightarrow> nat \<Rightarrow> byte list option" where
  "to_bytes len n = (if n < 256 ^ len then Some (be_bytes len n) else None)"

definition b58decode :: "string \<Rightarrow> byte list option" where
  "b58decode s =
     (let v = py_rstrip s;
          origlen = length v;
          v' = dropWhile (\<lambda>c. c = alphabet ! 0) v;
          newlen = length v'
      in case b58decode_int v' of
           None \<Rightarrow> None
         | Some acc \<Rightarrow> to_bytes (origlen - newlen + (bit_length acc + 7) div 8) acc)"

section \<open>The encoder\<close>

text \<open>
  \<^verbatim>\<open>list_to_base58\<close>: the length check, the range check, then
  \<^verbatim>\<open>base58.b58encode(bytes(int_list)).decode()\<close>. The encoder's output is ASCII, so
  decoding it to a \<^verbatim>\<open>str\<close> changes nothing.
\<close>

definition list_to_base58 :: "pyval \<Rightarrow> exn + string" where
  "list_to_base58 int_list =
     (case py_len int_list of
        Inl e \<Rightarrow> Inl e
      | Inr n \<Rightarrow>
          if n \<noteq> 32 \<and> n \<noteq> 64
          then Inl (ValueError (''Expected 32 or 64 integers, got '' @ str_nat n))
          else (case any_out_of_range (py_items int_list) of
                  Inl e \<Rightarrow> Inl e
                | Inr bad \<Rightarrow>
                    if bad then Inl (ValueError ''All list items must be in 0-255 range'')
                    else (case py_bytes int_list of
                            Inl e \<Rightarrow> Inl e
                          | Inr bs \<Rightarrow> Inr (b58encode bs))))"

section \<open>Builtins used by the loader\<close>

text \<open>
  \<^verbatim>\<open>str.split(sep)\<close> for a separator of one character: the text up to the next
  separator, then the rest; the empty string splits into one empty token.
\<close>

function py_split_on :: "char \<Rightarrow> string \<Rightarrow> string list" where
  "py_split_on sep s =
     (case dropWhile (\<lambda>c. c \<noteq> sep) s of
        [] \<Rightarrow> [s]
      | c # rest \<Rightarrow> takeWhile (\<lambda>c. c \<noteq> sep) s # py_split_on sep rest)"
  by pat_completeness auto
termination
proof (relation "measure (\<lambda>(sep, s). length s)")
  fix sep :: char and s :: string and c :: char and rest :: string
  assume "dropWhile (\<lambda>c. c \<noteq> sep) s = c # rest"
  then have "Suc (length rest) = length (dropWhile (\<lambda>c. c \<noteq> sep) s)"
    by simp
  also have "\<dots> \<le> length s"
    by (rule length_dropWhile_le)
  finally show "((sep, rest), (sep, s)) \<in> measure (\<lambda>(sep, s). length s)"
    by simp
qed simp

declare py_split_on.simps [simp del]

text \<open>
  \<^verbatim>\<open>str.split()\<close> with no argument: skip whitespace, take the run of characters up to
  the next whitespace, and go on; no token is empty.
\<close>

function py_split :: "string \<Rightarrow> string list" where
  "py_split s =
     (case dropWhile is_space s of
        [] \<Rightarrow> []
      | c # cs \<Rightarrow>
          (c # takeWhile (\<lambda>c. \<not> is_space c) cs) # py_split (dropWhile (\<lambda>c. \<not> is_space c) cs))"
  by pat_completeness auto
termination
proof (relation "measure length")
  fix s :: string and c :: char and cs :: string
  assume "dropWhile is_space s = c # cs"
  then have "Suc (length cs) = length (dropWhile is_space s)"
    by simp
  also have "\<dots> \<le> length s"
    by (rule length_dropWhile_le)
  finally have "length cs < length s"
    by simp
  moreover have "length (dropWhile (\<lambda>c. \<not> is_space c) cs) \<le> length cs"
    by (rule length_dropWhile_le)
  ultimately show "(dropWhile (\<lambda>c. \<not> is_space c) cs, s) \<in> measure length"
    by simp
qed simp

declare py_split.simps [simp del]

text \<open>\<^verbatim>\<open>str.replace(old, new)\<close> for two strings of one character each.\<close>

definition py_replace :: "char \<Rightarrow> char \<Rightarrow> string \<Rightarrow> string" where
  "py_replace old new s = map (\<lambda>c. if c = old then new else c) s"

text \<open>
  \<^verbatim>\<open>repr(s)\<close> of a string, which the message of a failed \<^verbatim>\<open>int(s)\<close> quotes: double
  quotes when the string has a single quote and no double quote, backslash escapes for
  the quote, the backslash, tab, newline and carriage return, and \<^verbatim>\<open>\xNN\<close> for the
  other code points that are not printable.
\<close>

definition hex_digit :: "nat \<Rightarrow> char" where
  "hex_digit d = ''0123456789abcdef'' ! d"

definition repr_char :: "char \<Rightarrow> char \<Rightarrow> string" where
  "repr_char quote c =
     (let n = (of_char c :: nat)
      in if c = quote \<or> c = CHR 0x5C then [CHR 0x5C, c]
         else if c = CHR 0x09 then [CHR 0x5C, CHR ''t'']
         else if c = CHR 0x0A then [CHR 0x5C, CHR ''n'']
         else if c = CHR 0x0D then [CHR 0x5C, CHR ''r'']
         else if n < 32 \<or> (127 \<le> n \<and> n \<le> 160) \<or> n = 173
           then [CHR 0x5C, CHR ''x'', hex_digit (n div 16), hex_digit (n mod 16)]
         else [c])"

definition py_repr :: "string \<Rightarrow> string" where
  "py_repr s =
     (let quote = (if CHR 0x27 \<in> set s \<and> CHR 0x22 \<notin> set s then CHR 0x22 else CHR 0x27)
      in quote # concat (map (repr_char quote) s) @ [quote])"

text \<open>
  \<^verbatim>\<open>int(x)\<close> for a string, base 10. Whitespace around the number is skipped: the ASCII
  whitespace (tab, newline, vertical tab, form feed, carriage return, space) and the
  whitespace beyond ASCII, which \<^verbatim>\<open>int\<close> turns into spaces first. The separators U+001C
  to U+001F, whitespace for \<^verbatim>\<open>str.strip\<close>, are not whitespace for \<^verbatim>\<open>int\<close>. Then come
  an optional sign and the digits, with single underscores allowed between digits.
\<close>

definition int_space :: "char \<Rightarrow> bool" where
  "int_space c =
     (let n = (of_char c :: nat)
      in (9 \<le> n \<and> n \<le> 13) \<or> n = 32 \<or> n = 133 \<or> n = 160)"

definition is_digit :: "char \<Rightarrow> bool" where
  "is_digit c = (48 \<le> (of_char c :: nat) \<and> (of_char c :: nat) \<le> 57)"

definition digit_val :: "char \<Rightarrow> nat" where
  "digit_val c = of_char c - 48"

text \<open>
  The scan over digits and underscores, \<open>prev\<close> being the character before: two
  underscores in a row or an underscore at the end are errors (\<^const>\<open>None\<close>); otherwise
  the digits read and the text after them.
\<close>

fun scan_digits :: "char \<Rightarrow> string \<Rightarrow> (nat list \<times> string) option" where
  "scan_digits prev [] = (if prev = CHR ''_'' then None else Some ([], []))"
| "scan_digits prev (c # cs) =
     (if is_digit c then
        (case scan_digits c cs of
           None \<Rightarrow> None
         | Some (ds, rest) \<Rightarrow> Some (digit_val c # ds, rest))
      else if c = CHR ''_'' then
        (if prev = CHR ''_'' then None else scan_digits c cs)
      else if prev = CHR ''_'' then None
      else Some ([], c # cs))"

definition invalid_literal :: "string \<Rightarrow> exn" where
  "invalid_literal x =
     ValueError (''invalid literal for int() with base 10: '' @ take 200 (py_repr x))"

definition exceeds_limit :: "nat \<Rightarrow> nat \<Rightarrow> exn" where
  "exceeds_limit max_str_digits digits =
     ValueError (''Exceeds the limit ('' @ str_nat max_str_digits
       @ '' digits) for integer string conversion: value has '' @ str_nat digits
       @ '' digits; use sys.set_int_max_str_digits() to increase the limit'')"

text \<open>
  \<open>max_str_digits\<close> is the interpreter's limit on the digits of a converted number
  (\<^verbatim>\<open>sys.get_int_max_str_digits()\<close>, 4300 unless changed; 0 for no limit).
\<close>

definition py_int :: "nat \<Rightarrow> string \<Rightarrow> exn + int" where
  "py_int max_str_digits x =
     (let s1 = dropWhile int_space x;
          negative = (case s1 of [] \<Rightarrow> False | c # cs \<Rightarrow> c = CHR ''-'');
          s2 = (case s1 of [] \<Rightarrow> [] | c # cs \<Rightarrow> if c = CHR ''+'' \<or> c = CHR ''-'' then cs else s1)
      in if take 1 s2 = ''_'' then Inl (invalid_literal x)
         else
           (case scan_digits (CHR 0x00) s2 of
              None \<Rightarrow> Inl (invalid_literal x)
            | Some (ds, rest) \<Rightarrow>
                if 640 < length ds \<and> 0 < max_str_digits \<and> max_str_digits < length ds
                  then Inl (exceeds_limit max_str_digits (length ds))
                else if ds = [] then Inl (invalid_literal x)
                else if dropWhile int_space rest \<noteq> [] then Inl (invalid_literal x)
                else Inr ((if negative then - 1 else 1) * int (foldl (\<lambda>a d. a * 10 + d) 0 ds))))"

text \<open>\<^verbatim>\<open>[int(x) for x in tokens]\<close>: the first token that does not convert raises.\<close>

fun int_each :: "nat \<Rightarrow> string list \<Rightarrow> exn + int list" where
  "int_each m [] = Inr []"
| "int_each m (x # xs) =
     (case py_int m x of
        Inl e \<Rightarrow> Inl e
      | Inr i \<Rightarrow> (case int_each m xs of Inl e \<Rightarrow> Inl e | Inr js \<Rightarrow> Inr (i # js)))"

text \<open>
  \<^verbatim>\<open>Path(source).suffix\<close> on a POSIX system: the name is the last component of the path
  that is neither empty nor a single dot, and the suffix is the name from its last dot
  on, unless that dot is the first or the last character of the name.
\<close>

definition path_name :: "string \<Rightarrow> string" where
  "path_name p =
     (case rev (filter (\<lambda>part. part \<noteq> [] \<and> part \<noteq> ''.'') (py_split_on (CHR ''/'') p)) of
        [] \<Rightarrow> []
      | name # _ \<Rightarrow> name)"

definition path_suffix :: "string \<Rightarrow> string" where
  "path_suffix p =
     (let name = path_name p;
          ext = rev (takeWhile (\<lambda>c. c \<noteq> CHR ''.'') (rev name))
      in if CHR ''.'' \<in> set name \<and> ext \<noteq> [] \<and> Suc (length ext) < length name
         then CHR ''.'' # ext else [])"

section \<open>The loader and the command line\<close>

text \<open>
  What the program asks of the world outside it is a parameter of the model: whether a
  path exists and what text the file holds (each may raise instead, an \<^verbatim>\<open>OSError\<close>
  say), what \<^verbatim>\<open>json.loads\<close> and \<^verbatim>\<open>ast.literal_eval\<close> return or raise on a text, and
  the interpreter's limit on the digits of an integer.
\<close>

record env =
  path_exists :: "string \<Rightarrow> exn + bool"
  read_text :: "string \<Rightarrow> exn + string"
  json_loads :: "string \<Rightarrow> exn + pyval"
  literal_eval :: "string \<Rightarrow> exn + pyval"
  int_max_str_digits :: nat

text \<open>The list of integers a comprehension built, as a Python value.\<close>

definition int_list_value :: "exn + int list \<Rightarrow> exn + pyval" where
  "int_list_value r = (case r of Inl e \<Rightarrow> Inl e | Inr js \<Rightarrow> Inr (PyList (map PyInt js)))"

definition load_list :: "env \<Rightarrow> string \<Rightarrow> exn + pyval" where
  "load_list env source =
     (case path_exists env source of
        Inl e \<Rightarrow> Inl e
      | Inr found \<Rightarrow>
          if found then
            (case read_text env source of
               Inl e \<Rightarrow> Inl e
             | Inr contents \<Rightarrow>
                 (let text = py_strip contents
                  in if path_suffix source = ''.json'' then json_loads env text
                     else if path_suffix source = ''.csv'' then
                       int_list_value (int_each (int_max_str_digits env)
                         (filter (\<lambda>x. py_strip x \<noteq> []) (py_split_on (CHR '','') text)))
                     else
                       int_list_value (int_each (int_max_str_digits env)
                         (py_split (py_replace (CHR '','') (CHR '' '') text)))))
          else literal_eval env source)"

text \<open>
  \<^verbatim>\<open>main\<close>, from the parsed argument on: the \<^verbatim>\<open>try\<close> block prints the key, the
  handler prints the error and exits with status 1.
\<close>

definition report_error :: "exn \<Rightarrow> outcome" where
  "report_error e = \<lparr>stdout = [], stderr = ''Error: '' @ exn_str e @ [CHR 0x0A], exit_code = 1\<rparr>"

definition print_key :: "string \<Rightarrow> outcome" where
  "print_key b58 = \<lparr>stdout = b58 @ [CHR 0x0A], stderr = [], exit_code = 0\<rparr>"

definition main :: "env \<Rightarrow> string \<Rightarrow> outcome" where
  "main env source =
     (case load_list env source of
        Inl e \<Rightarrow> report_error e
      | Inr key_ints \<Rightarrow>
          (case list_to_base58 key_ints of
             Inl e \<Rightarrow> report_error e
           | Inr b58 \<Rightarrow> print_key b58))"

section \<open>The file formats, in the spec's words\<close>

text \<open>
  The spec describes the two text formats by what the loader makes of a file's contents.
  These definitions follow its words rather than the code, to be compared with
  \<^const>\<open>load_list\<close>. Converting a token is \<^verbatim>\<open>int\<close> in both.

  Parsing each token as an integer, keeping the order: the first token that does not
  convert decides the error; when all convert, the result is the list of their values.
\<close>

definition spec_parse_tokens :: "nat \<Rightarrow> string list \<Rightarrow> exn + int list" where
  "spec_parse_tokens m ts =
     (case find (\<lambda>t. isl (py_int m t)) ts of
        Some t \<Rightarrow> Inl (projl (py_int m t))
      | None \<Rightarrow> Inr (map (\<lambda>t. projr (py_int m t)) ts))"





text \<open>
  Plain text: the tokens are the maximal runs of characters that are neither whitespace
  nor commas, in the order they stand in the file; each is parsed as an integer.
\<close>

definition is_separator :: "char \<Rightarrow> bool" where
  "is_separator c = (is_space c \<or> c = CHR '','')"

fun spec_tokens :: "string \<Rightarrow> string \<Rightarrow> string list" where
  "spec_tokens cur [] = (if cur = [] then [] else [cur])"
| "spec_tokens cur (c # cs) =
     (if is_separator c then (if cur = [] then spec_tokens [] cs else cur # spec_tokens [] cs)
      else spec_tokens (cur @ [c]) cs)"

definition spec_load_text :: "nat \<Rightarrow> string \<Rightarrow> exn + pyval" where
  "spec_load_text m contents = int_list_value (spec_parse_tokens m (spec_tokens [] contents))"

section \<open>A sample environment\<close>

text \<open>
  An environment to run the model on concrete inputs: four files, and the two parsers as
  tables. Each entry of a table is what \<^verbatim>\<open>json.loads\<close> or \<^verbatim>\<open>ast.literal_eval\<close>
  returns on that text. A text outside a table stands for a malformed one: the sample
  parsers raise on it what the real ones raise on \<^verbatim>\<open>oops!\<close>.
\<close>

definition key_text :: string where
  "key_text = ''[0, 1, 2, 3, 4, 5, 6, 7, 8, 9, 10, 11, 12, 13, 14, 15, 16, 1''
     @ ''7, 18, 19, 20, 21, 22, 23, 24, 25, 26, 27, 28, 29, 30, 31]''"

definition zeros_text :: string where
  "zeros_text = ''[0, 0, 0, 0, 0, 0, 0, 0, 0, 0, 0, 0, 0, 0, 0, 0, 0, 0, 0, 0,''
     @ '' 0, 0, 0, 0, 0, 0, 0, 0, 0, 0, 0, 0]''"

definition float_text :: string where
  "float_text = ''[1.5, 0, 0, 0, 0, 0, 0, 0, 0, 0, 0, 0, 0, 0, 0, 0, 0, 0, 0, ''
     @ ''0, 0, 0, 0, 0, 0, 0, 0, 0, 0, 0, 0, 0]''"

definition tuple_text :: string where
  "tuple_text = ''(0, 0, 0, 0, 0, 0, 0, 0, 0, 0, 0, 0, 0, 0, 0, 0, 0, 0, 0, 0,''
     @ '' 0, 0, 0, 0, 0, 0, 0, 0, 0, 0, 0, 0)''"

definition nums_text :: string where
  "nums_text = ''1 2,3'' @ [CHR 0x0A] @ '' 4 ,5'' @ [CHR 0x0A]"

definition sample_files :: "(string \<times> string) list" where
  "sample_files =
     [(''key.json'', key_text @ [CHR 0x0A]),
      (''bad.json'', float_text @ [CHR 0x0A]),
      (''nums.csv'', ''1,2,3, 4''),
      (''nums.txt'', nums_text)]"

definition sample_json :: "(string \<times> pyval) list" where
  "sample_json =
     [(key_text, PyList (map PyInt [0..31])),
      (float_text, PyList (PyFloat (Finite (3 / 2)) # replicate 31 (PyInt 0)))]"

definition sample_literals :: "(string \<times> pyval) list" where
  "sample_literals =
     [(key_text, PyList (map PyInt [0..31])),
      (zeros_text, PyList (replicate 32 (PyInt 0))),
      (tuple_text, PyTuple (replicate 32 (PyInt 0))),
      (''[1,2,3]'', PyList [PyInt 1, PyInt 2, PyInt 3]),
      (''5'', PyInt 5)]"

definition sample_env :: env where
  "sample_env =
     \<lparr>path_exists = (\<lambda>p. Inr (p \<in> set (map fst sample_files))),
      read_text = (\<lambda>p. case map_of sample_files p of
                           None \<Rightarrow> Inl (OtherException ''FileNotFoundError''
                                    (''[Errno 2] No such file or directory: '' @ py_repr p))
                         | Some contents \<Rightarrow> Inr contents),
      json_loads = (\<lambda>t. case map_of sample_json t of
                           None \<Rightarrow> Inl (OtherException ''JSONDecodeError''
                                    ''Expecting value: line 1 column 1 (char 0)'')
                         | Some v \<Rightarrow> Inr v),
      literal_eval = (\<lambda>t. case map_of sample_literals t of
                           None \<Rightarrow> Inl (OtherException ''SyntaxError''
                                    ''invalid syntax (<unknown>, line 1)'')
                         | Some v \<Rightarrow> Inr v),
      int_max_str_digits = 4300\<rparr>"

section \<open>The encoder's validation\<close>

lemma any_out_of_range_ints:
  "any_out_of_range (map PyInt xs) = Inr (\<exists>x\<in>set xs. x < 0 \<or> 255 < x)"
  by (induction xs) auto

lemma bytes_of_items_ints:
  "\<forall>x\<in>set xs. 0 \<le> x \<and> x \<le> 255 \<Longrightarrow> bytes_of_items (map PyInt xs) = Inr (map word_of_int xs)"
  by (induction xs) auto

lemma any_out_of_range_zeros: "any_out_of_range (replicate n (PyInt 0)) = Inr False"
  by (induction n) auto

lemma bytes_of_items_zeros: "bytes_of_items (replicate n (PyInt 0)) = Inr (replicate n 0)"
  by (induction n) auto

lemma b58encode_zeros: "b58encode (replicate n 0) = replicate n (CHR ''1'')"
  by (simp add: b58encode_def from_bytes_def b58encode_int_def b58encode_loop.simps alphabet_def)

lemma digit_char_value:
  fixes n :: nat
  assumes "n < 10"
  shows "of_char (digit_char n) - 48 = n"
proof -
  from assms consider "n = 0" | "n = 1" | "n = 2" | "n = 3" | "n = 4"
    | "n = 5" | "n = 6" | "n = 7" | "n = 8" | "n = 9"
    by atomize_elim arith
  then show ?thesis
    by cases (simp_all add: digit_char_def)
qed

lemma str_nat_value: "decimal_value (str_nat n) = n"
proof (induction n rule: str_nat.induct)
  case (1 n)
  show ?case
  proof (cases "n < 10")
    case True
    then show ?thesis
      by (simp add: str_nat.simps [of n] decimal_value_def digit_char_value)
  next
    case False
    with "1.IH" have "decimal_value (str_nat (n div 10)) = n div 10" by simp
    with False show ?thesis
      by (simp add: str_nat.simps [of n] decimal_value_def digit_char_value)
  qed
qed

text \<open>
  C2. A list whose length is neither 32 nor 64 is refused with the length-mismatch
  error, whose message ends with the length of the list in decimal, whatever the items
  are (integers or not, in range or not); the error is never the range error.
\<close>

theorem length_mismatch:
  assumes "length xs \<noteq> 32" and "length xs \<noteq> 64"
  shows "list_to_base58 (PyList xs) =
           Inl (ValueError (''Expected 32 or 64 integers, got '' @ str_nat (length xs)))
       \<and> decimal_value (str_nat (length xs)) = length xs
       \<and> list_to_base58 (PyList xs) \<noteq> Inl (ValueError ''All list items must be in 0-255 range'')"
  using assms by (simp add: list_to_base58_def str_nat_value)

theorem length_mismatch_witness:
  "list_to_base58 (PyList [PyInt 1, PyInt 2, PyInt 300]) =
     Inl (ValueError ''Expected 32 or 64 integers, got 3'')
   \<and> list_to_base58 (PyList [PyInt 1, PyInt 2, PyInt 300]) \<noteq>
     Inl (ValueError ''All list items must be in 0-255 range'')"
  using length_mismatch [of "[PyInt 1, PyInt 2, PyInt 300]"]
  by (simp add: str_nat.simps digit_char_def)

text \<open>
  C3. A list of 32 or 64 integers with at least one integer below 0 or above 255 is
  refused with the range error, whose message is exactly
  \<^verbatim>\<open>All list items must be in 0-255 range\<close>.
\<close>

theorem range_violation:
  fixes xs :: "int list"
  assumes "length xs = 32 \<or> length xs = 64" and "\<exists>x\<in>set xs. x < 0 \<or> 255 < x"
  shows "list_to_base58 (PyList (map PyInt xs)) =
           Inl (ValueError ''All list items must be in 0-255 range'')"
  using assms by (auto simp add: list_to_base58_def any_out_of_range_ints)

theorem range_violation_witness:
  "list_to_base58 (PyList (map PyInt (256 # replicate 31 0))) =
     Inl (ValueError ''All list items must be in 0-255 range'')"
  using range_violation [of "256 # replicate 31 0"] by simp

text \<open>
  C4. The list of 32 zeros is accepted; the result is what the reference encoder gives
  for 32 zero bytes, which is the first letter of the alphabet, \<^verbatim>\<open>1\<close>, 32 times.
\<close>

theorem zeros_32:
  "list_to_base58 (PyList (replicate 32 (PyInt 0))) = Inr (b58encode (replicate 32 0))
   \<and> b58encode (replicate 32 0) = replicate 32 (alphabet ! 0)
   \<and> alphabet ! 0 = CHR ''1''"
  by (simp add: list_to_base58_def any_out_of_range_zeros bytes_of_items_zeros b58encode_zeros)
     (simp add: alphabet_def)

lemma b58encode_example: "b58encode [0, 0, 1, 2, 3] = ''11Ldp''"
  by (simp add: b58encode_def from_bytes_def b58encode_int_def b58encode_loop.simps alphabet_def)

section \<open>Base58: decoding inverts encoding\<close>

lemma alphabet_length: "length alphabet = 58"
  by (simp add: alphabet_def)

lemma alphabet_distinct: "distinct alphabet"
  by (simp add: alphabet_def)

lemma alphabet_no_space: "c \<in> set alphabet \<Longrightarrow> \<not> is_space c"
  by (auto simp add: alphabet_def is_space_def)

lemma decode_map_nth: "k < 58 \<Longrightarrow> decode_map (alphabet ! k) = Some k"
proof -
  assume k: "k < 58"
  have "map_of (zip alphabet [0..<length alphabet]) (alphabet ! k) = Some ([0..<length alphabet] ! k)"
    using k by (intro map_of_zip_nth) (simp_all add: alphabet_distinct alphabet_length)
  then show ?thesis
    using k by (simp add: decode_map_def alphabet_length)
qed

lemma alphabet_nth_neq_first: "0 < k \<Longrightarrow> k < 58 \<Longrightarrow> alphabet ! k \<noteq> alphabet ! 0"
  using alphabet_distinct by (simp add: nth_eq_iff_index_eq alphabet_length)

lemma b58encode_loop_append: "b58encode_loop i s = b58encode_loop i [] @ s"
proof (induction i arbitrary: s rule: less_induct)
  case (less i)
  show ?case
  proof (cases "i = 0")
    case True
    then show ?thesis by (simp add: b58encode_loop.simps)
  next
    case False
    then have "i div 58 < i" by simp
    from less.IH [OF this, of "alphabet ! (i mod 58) # s"] less.IH [OF this, of "[alphabet ! (i mod 58)]"]
    show ?thesis
      using False by (simp add: b58encode_loop.simps [of i])
  qed
qed

lemma b58encode_loop_zero: "b58encode_loop 0 [] = []"
  by (simp add: b58encode_loop.simps)

lemma b58encode_loop_step:
  "0 < i \<Longrightarrow> b58encode_loop i [] = b58encode_loop (i div 58) [] @ [alphabet ! (i mod 58)]"
  using b58encode_loop_append [of "i div 58" "[alphabet ! (i mod 58)]"]
  by (simp add: b58encode_loop.simps [of i])

lemma b58encode_loop_set: "set (b58encode_loop i []) \<subseteq> set alphabet"
proof (induction i rule: less_induct)
  case (less i)
  show ?case
  proof (cases "i = 0")
    case True
    then show ?thesis by (simp add: b58encode_loop_zero)
  next
    case False
    then have "i div 58 < i" by simp
    from less.IH [OF this] False show ?thesis
      by (simp add: b58encode_loop_step alphabet_length)
  qed
qed

lemma b58encode_loop_head:
  "0 < i \<Longrightarrow> b58encode_loop i [] \<noteq> [] \<and> hd (b58encode_loop i []) \<noteq> alphabet ! 0"
proof (induction i rule: less_induct)
  case (less i)
  show ?case
  proof (cases "i div 58 = 0")
    case True
    with less.prems have "i mod 58 = i" "i < 58" by auto
    with less.prems True show ?thesis
      by (simp add: b58encode_loop_step b58encode_loop_zero alphabet_nth_neq_first)
  next
    case False
    with less.prems have "i div 58 < i" "0 < i div 58" by auto
    from less.IH [OF this] less.prems show ?thesis
      by (simp add: b58encode_loop_step)
  qed
qed

lemma b58decode_loop_snoc:
  "b58decode_loop d (cs @ [c]) =
     (case b58decode_loop d cs of
        None \<Rightarrow> None
      | Some a \<Rightarrow> (case decode_map c of None \<Rightarrow> None | Some k \<Rightarrow> Some (a * 58 + k)))"
  by (induction cs arbitrary: d) (auto split: option.splits)

lemma b58decode_loop_encode: "b58decode_loop 0 (b58encode_loop i []) = Some i"
proof (induction i rule: less_induct)
  case (less i)
  show ?case
  proof (cases "i = 0")
    case True
    then show ?thesis by (simp add: b58encode_loop_zero)
  next
    case False
    then have "i div 58 < i" by simp
    from less.IH [OF this] False show ?thesis
      by (simp add: b58encode_loop_step b58decode_loop_snoc decode_map_nth)
  qed
qed

lemma py_rstrip_id: "s = [] \<or> \<not> is_space (last s) \<Longrightarrow> py_rstrip s = s"
  by (cases s rule: rev_cases) (auto simp add: py_rstrip_def)

lemma py_rstrip_alphabet: "set s \<subseteq> set alphabet \<Longrightarrow> py_rstrip s = s"
proof (rule py_rstrip_id)
  assume sub: "set s \<subseteq> set alphabet"
  show "s = [] \<or> \<not> is_space (last s)"
  proof (cases "s = []")
    case False
    then have "last s \<in> set alphabet" using sub by auto
    then show ?thesis by (simp add: alphabet_no_space)
  qed simp
qed

lemma from_bytes_snoc: "from_bytes (w @ [b]) = from_bytes w * 256 + unat b"
  by (simp add: from_bytes_def)

lemma unat_byte: "unat (b :: byte) < 256"
  using unsigned_less [of b, where ?'a = nat] by simp

lemma from_bytes_bound: "from_bytes w < 256 ^ length w"
proof (induction w rule: rev_induct)
  case Nil
  then show ?case by (simp add: from_bytes_def)
next
  case (snoc b w)
  have "from_bytes w * 256 + unat b < (from_bytes w + 1) * 256"
    using unat_byte [of b] by simp
  also have "\<dots> \<le> 256 ^ length w * 256"
    using snoc.IH by (intro mult_le_mono1) simp
  finally show ?case by (simp add: from_bytes_snoc)
qed

lemma from_bytes_Cons: "from_bytes (b # w) = unat b * 256 ^ length w + from_bytes w"
proof (induction w rule: rev_induct)
  case Nil
  then show ?case by (simp add: from_bytes_def)
next
  case (snoc c w)
  have "from_bytes (b # w @ [c]) = from_bytes ((b # w) @ [c])" by simp
  also have "\<dots> = from_bytes (b # w) * 256 + unat c" by (rule from_bytes_snoc)
  finally show ?case by (simp add: snoc.IH from_bytes_snoc algebra_simps)
qed

lemma be_bytes_from_bytes: "be_bytes (length w) (from_bytes w) = w"
proof (induction w rule: rev_induct)
  case Nil
  then show ?case by simp
next
  case (snoc b w)
  have "(from_bytes w * 256 + unat b) div 256 = from_bytes w"
    using unat_byte [of b] by simp
  moreover have "(from_bytes w * 256 + unat b) mod 256 = unat b"
    using unat_byte [of b] by simp
  ultimately show ?case by (simp add: from_bytes_snoc snoc.IH)
qed

lemma be_bytes_zero: "be_bytes z 0 = replicate z 0"
  by (induction z) (simp_all add: replicate_append_same)

lemma be_bytes_pad: "n < 256 ^ k \<Longrightarrow> be_bytes (z + k) n = replicate z 0 @ be_bytes k n"
proof (induction k arbitrary: n)
  case 0
  then show ?case by (simp add: be_bytes_zero)
next
  case (Suc k)
  then have "n div 256 < 256 ^ k"
    by (simp add: less_mult_imp_div_less mult.commute)
  from Suc.IH [OF this] show ?case by simp
qed

lemma bit_length_le: "bit_length n \<le> b \<longleftrightarrow> n < 2 ^ b"
proof (induction n arbitrary: b rule: bit_length.induct)
  case (1 n)
  show ?case
  proof (cases "n = 0")
    case True
    then show ?thesis by (simp add: bit_length.simps)
  next
    case False
    show ?thesis
    proof (cases b)
      case 0
      with False show ?thesis by (simp add: bit_length.simps [of n])
    next
      case (Suc b')
      have "n div 2 < 2 ^ b' \<longleftrightarrow> n < 2 ^ Suc b'"
        by (simp add: less_mult_imp_div_less div_less_iff_less_mult mult.commute)
      with "1.IH" [OF False, of b'] False Suc show ?thesis
        by (simp add: bit_length.simps [of n])
    qed
  qed
qed

lemma byte_count:
  assumes "0 < k" and "256 ^ (k - 1) \<le> n" and "n < 256 ^ k"
  shows "(bit_length n + 7) div 8 = k"
proof -
  have p: "(256 :: nat) ^ m = 2 ^ (8 * m)" for m
    by (simp add: power_mult)
  have "bit_length n \<le> 8 * k"
    using assms(3) by (simp add: bit_length_le p)
  moreover have "\<not> bit_length n \<le> 8 * (k - 1)"
    using assms(2) by (simp add: bit_length_le p)
  ultimately show ?thesis
    using assms(1) by simp
qed

lemma byte_count_from_bytes:
  assumes "w = [] \<or> hd w \<noteq> 0"
  shows "(bit_length (from_bytes w) + 7) div 8 = length w"
proof (cases w)
  case Nil
  then show ?thesis by (simp add: from_bytes_def bit_length.simps)
next
  case (Cons b w')
  with assms have "b \<noteq> 0" by simp
  then have "1 \<le> unat b" by (simp add: unat_gt_0 Suc_le_eq)
  then have "(256 :: nat) ^ length w' \<le> unat b * 256 ^ length w'"
    by (cases "unat b") simp_all
  then have "256 ^ length w' \<le> unat b * 256 ^ length w' + from_bytes w'"
    by (rule trans_le_add1)
  then have "256 ^ (length w - 1) \<le> from_bytes w"
    by (simp add: Cons from_bytes_Cons)
  then show ?thesis
    using from_bytes_bound [of w] Cons by (intro byte_count) simp_all
qed

text \<open>Decoding inverts encoding, for every byte string.\<close>

lemma b58decode_b58encode: "b58decode (b58encode v) = Some v"
proof -
  define z where "z = length (takeWhile (\<lambda>b. b = 0) v)"
  define w where "w = dropWhile (\<lambda>b. b = 0) v"
  define ds where "ds = b58encode_loop (from_bytes w) []"
  have v: "v = replicate z 0 @ w"
  proof -
    have "\<forall>b\<in>set (takeWhile (\<lambda>b. b = 0) v). b = 0"
      by (auto dest: set_takeWhileD)
    then have "takeWhile (\<lambda>b. b = 0) v = replicate z 0"
      unfolding z_def by (simp add: replicate_length_same)
    then show ?thesis
      unfolding w_def using takeWhile_dropWhile_id [of "\<lambda>b. b = 0" v] by simp
  qed
  have w: "w = [] \<or> hd w \<noteq> 0"
    unfolding w_def using hd_dropWhile [of "\<lambda>b. b = 0" v] by auto
  have len: "length v - length w = z"
    using v by simp
  have enc: "b58encode v = replicate z (alphabet ! 0) @ ds"
    unfolding b58encode_def Let_def b58encode_int_def ds_def w_def [symmetric] len by simp
  have "set (b58encode v) \<subseteq> set alphabet"
    unfolding enc ds_def using b58encode_loop_set [of "from_bytes w"]
    by (auto simp add: alphabet_length)
  then have strip: "py_rstrip (b58encode v) = b58encode v"
    by (rule py_rstrip_alphabet)
  have ds: "ds = [] \<or> hd ds \<noteq> alphabet ! 0"
    unfolding ds_def using b58encode_loop_head [of "from_bytes w"]
    by (cases "from_bytes w = 0") (simp_all add: b58encode_loop_zero)
  then have drop: "dropWhile (\<lambda>c. c = alphabet ! 0) (replicate z (alphabet ! 0) @ ds) = ds"
    by (cases ds) (simp_all add: dropWhile_append3)
  have "set ds \<subseteq> set alphabet"
    unfolding ds_def by (rule b58encode_loop_set)
  then have "py_rstrip ds = ds"
    by (rule py_rstrip_alphabet)
  then have int: "b58decode_int ds = Some (from_bytes w)"
    by (simp add: b58decode_int_def ds_def b58decode_loop_encode)
  have "to_bytes (z + length w) (from_bytes w) = Some (replicate z 0 @ w)"
  proof -
    have "from_bytes w < 256 ^ length w" by (rule from_bytes_bound)
    also have "\<dots> \<le> 256 ^ (z + length w)" by (intro power_increasing) simp_all
    finally show ?thesis
      by (simp add: to_bytes_def be_bytes_pad from_bytes_bound be_bytes_from_bytes)
  qed
  then show ?thesis
    unfolding b58decode_def Let_def strip
    unfolding enc drop int
    using v by (simp add: byte_count_from_bytes [OF w])
qed


lemma uint_byte_of_int: "0 \<le> x \<Longrightarrow> x \<le> 255 \<Longrightarrow> uint (word_of_int x :: byte) = x"
  by (simp add: uint_word_of_int)

text \<open>
  C1. For a list of 32 or 64 integers, each from 0 to 255, the encoder returns a
  string, and standard base58 decoding of that string gives back the bytes whose
  values are the integers of the list, in order.
\<close>

theorem base58_round_trip:
  fixes xs :: "int list"
  assumes "length xs = 32 \<or> length xs = 64" and "\<forall>x\<in>set xs. 0 \<le> x \<and> x \<le> 255"
  shows "\<exists>s. list_to_base58 (PyList (map PyInt xs)) = Inr s
           \<and> map_option (map uint) (b58decode s) = Some xs"
proof -
  have "list_to_base58 (PyList (map PyInt xs)) = Inr (b58encode (map word_of_int xs))"
    using assms by (auto simp add: list_to_base58_def any_out_of_range_ints bytes_of_items_ints)
  moreover have "map uint (map word_of_int xs :: byte list) = xs"
    using assms(2) by (simp add: map_idI uint_byte_of_int)
  ultimately show ?thesis
    by (simp add: b58decode_b58encode)
qed

theorem base58_round_trip_witness:
  "\<exists>s. list_to_base58 (PyList (map PyInt (replicate 32 7))) = Inr s
           \<and> map_option (map uint) (b58decode s) = Some (replicate 32 7)"
  using base58_round_trip [of "replicate 32 7"] by simp

section \<open>The sample environment, evaluated\<close>

lemma sample_literal_paths:
  "path_exists sample_env ''oops!'' = Inr False"
  "path_exists sample_env ''[1,2,3]'' = Inr False"
  "path_exists sample_env key_text = Inr False"
  "path_exists sample_env zeros_text = Inr False"
  "path_exists sample_env tuple_text = Inr False"
  "path_exists sample_env ''5'' = Inr False"
  by (simp_all add: sample_env_def sample_files_def key_text_def tuple_text_def zeros_text_def)

lemma sample_literal_loads:
  "load_list sample_env ''oops!'' = Inl (OtherException ''SyntaxError'' ''invalid syntax (<unknown>, line 1)'')"
  "load_list sample_env ''[1,2,3]'' = Inr (PyList [PyInt 1, PyInt 2, PyInt 3])"
  "load_list sample_env key_text = Inr (PyList (map PyInt [0..31]))"
  "load_list sample_env zeros_text = Inr (PyList (replicate 32 (PyInt 0)))"
  "load_list sample_env tuple_text = Inr (PyTuple (replicate 32 (PyInt 0)))"
  "load_list sample_env ''5'' = Inr (PyInt 5)"
  by (simp_all add: load_list_def sample_literal_paths)
     (simp_all add: sample_env_def sample_literals_def key_text_def tuple_text_def zeros_text_def)

lemma list_to_base58_zeros:
  "list_to_base58 (PyList (replicate 32 (PyInt 0))) = Inr (replicate 32 (CHR ''1''))"
  "list_to_base58 (PyTuple (replicate 32 (PyInt 0))) = Inr (replicate 32 (CHR ''1''))"
  by (simp_all add: list_to_base58_def any_out_of_range_zeros bytes_of_items_zeros b58encode_zeros)

lemma list_to_base58_123:
  "list_to_base58 (PyList [PyInt 1, PyInt 2, PyInt 3]) = Inl (ValueError ''Expected 32 or 64 integers, got 3'')"
  by (simp add: list_to_base58_def str_nat.simps digit_char_def)

lemma sample_bad_json:
  "path_exists sample_env ''bad.json'' = Inr True"
  "read_text sample_env ''bad.json'' = Inr (float_text @ [CHR 0x0A])"
  "json_loads sample_env float_text = Inr (PyList (PyFloat (Finite (3 / 2)) # map PyInt (replicate 31 0)))"
  by (simp_all add: sample_env_def sample_files_def sample_json_def float_text_def key_text_def)

lemma sample_bad_json_text:
  "path_suffix ''bad.json'' = ''.json''"
  "py_strip (float_text @ [CHR 0x0A]) = float_text"
  by code_simp+

section \<open>The text formats\<close>

lemma int_each_spec: "int_each m ts = spec_parse_tokens m ts"
proof (induction ts)
  case Nil
  then show ?case by (simp add: spec_parse_tokens_def)
next
  case (Cons t ts)
  then show ?case
    by (cases "py_int m t") (auto simp add: spec_parse_tokens_def split: option.splits sum.splits)
qed








lemma underscore_not_digit: "\<not> is_digit (CHR ''_'')"
  by (simp add: is_digit_def)





















lemma sample_csv:
  "path_exists sample_env ''nums.csv'' = Inr True"
  "read_text sample_env ''nums.csv'' = Inr ''1,2,3, 4''"
  "int_max_str_digits sample_env = 4300"
  by (simp_all add: sample_env_def sample_files_def)



lemma spec_tokens_run:
  "cur \<noteq> [] \<Longrightarrow> spec_tokens cur s =
     (cur @ takeWhile (\<lambda>c. \<not> is_separator c) s) # spec_tokens [] (dropWhile (\<lambda>c. \<not> is_separator c) s)"
  by (induction s arbitrary: cur) auto

lemma spec_tokens_unfold:
  "spec_tokens [] s =
     (case dropWhile is_separator s of
        [] \<Rightarrow> []
      | c # cs \<Rightarrow> (c # takeWhile (\<lambda>c. \<not> is_separator c) cs)
                  # spec_tokens [] (dropWhile (\<lambda>c. \<not> is_separator c) cs))"
  by (induction s) (simp_all add: spec_tokens_run)

lemma is_space_replace: "is_space (if c = CHR '','' then CHR '' '' else c) = is_separator c"
  by (simp add: is_separator_def is_space_def)

lemma replace_not_separator: "\<not> is_separator c \<Longrightarrow> (if c = CHR '','' then CHR '' '' else c) = c"
  by (simp add: is_separator_def)

lemma py_split_replace: "py_split (py_replace (CHR '','') (CHR '' '') s) = spec_tokens [] s"
proof (induction s rule: length_induct)
  case (1 s)
  let ?f = "\<lambda>c. if c = CHR '','' then CHR '' '' else c"
  have drop: "dropWhile is_space (map ?f s) = map ?f (dropWhile is_separator s)"
    by (simp add: dropWhile_map comp_def is_space_replace)
  show ?case
  proof (cases "dropWhile is_separator s")
    case Nil
    have "py_split (map ?f s) = []"
      by (subst py_split.simps) (simp add: drop Nil del: dropWhile_eq_Nil_conv)
    moreover have "spec_tokens [] s = []"
      by (subst spec_tokens_unfold) (simp add: Nil del: dropWhile_eq_Nil_conv)
    ultimately show ?thesis
      by (simp add: py_replace_def)
  next
    case (Cons c cs)
    then have c: "\<not> is_separator c"
      using hd_dropWhile [of is_separator s] by auto
    have "length cs < length (dropWhile is_separator s)"
      by (simp add: Cons)
    also have "\<dots> \<le> length s"
      by (rule length_dropWhile_le)
    finally have "length (dropWhile (\<lambda>c. \<not> is_separator c) cs) < length s"
      using length_dropWhile_le [of "\<lambda>c. \<not> is_separator c" cs] by simp
    with 1 have "py_split (py_replace (CHR '','') (CHR '' '') (dropWhile (\<lambda>c. \<not> is_separator c) cs))
        = spec_tokens [] (dropWhile (\<lambda>c. \<not> is_separator c) cs)"
      by blast
    then have IH: "py_split (map ?f (dropWhile (\<lambda>c. \<not> is_separator c) cs))
        = spec_tokens [] (dropWhile (\<lambda>c. \<not> is_separator c) cs)"
      by (simp add: py_replace_def)
    have take: "takeWhile (\<lambda>c. \<not> is_space c) (map ?f cs) = takeWhile (\<lambda>c. \<not> is_separator c) cs"
    proof -
      have "takeWhile (\<lambda>c. \<not> is_space c) (map ?f cs) = map ?f (takeWhile (\<lambda>c. \<not> is_separator c) cs)"
        by (simp add: takeWhile_map comp_def is_space_replace)
      also have "\<dots> = takeWhile (\<lambda>c. \<not> is_separator c) cs"
        by (rule map_idI) (auto dest: set_takeWhileD simp add: is_separator_def)
      finally show ?thesis .
    qed
    have drop2: "dropWhile (\<lambda>c. \<not> is_space c) (map ?f cs) = map ?f (dropWhile (\<lambda>c. \<not> is_separator c) cs)"
      by (simp add: dropWhile_map comp_def is_space_replace)
    have fc: "?f c = c"
      using c by (simp add: is_separator_def)
    have "py_split (map ?f s) =
        (c # takeWhile (\<lambda>c. \<not> is_separator c) cs) # spec_tokens [] (dropWhile (\<lambda>c. \<not> is_separator c) cs)"
      by (subst py_split.simps) (simp add: drop Cons take drop2 IH fc del: dropWhile_eq_Nil_conv)
    moreover have "spec_tokens [] s =
        (c # takeWhile (\<lambda>c. \<not> is_separator c) cs) # spec_tokens [] (dropWhile (\<lambda>c. \<not> is_separator c) cs)"
      by (subst spec_tokens_unfold) (simp add: Cons)
    ultimately show ?thesis
      by (simp add: py_replace_def)
  qed
qed

lemma spec_tokens_snoc_separator:
  "is_separator c \<Longrightarrow> spec_tokens cur (s @ [c]) = spec_tokens cur s"
  by (induction s arbitrary: cur) auto

lemma spec_tokens_lstrip: "spec_tokens [] (py_lstrip s) = spec_tokens [] s"
  by (induction s) (auto simp add: py_lstrip_def is_separator_def)

lemma spec_tokens_rstrip: "spec_tokens [] (py_rstrip s) = spec_tokens [] s"
proof (induction s rule: rev_induct)
  case Nil
  then show ?case by (simp add: py_rstrip_def)
next
  case (snoc c s)
  show ?case
  proof (cases "is_space c")
    case True
    then have "py_rstrip (s @ [c]) = py_rstrip s"
      by (simp add: py_rstrip_def)
    with snoc True show ?thesis
      by (simp add: spec_tokens_snoc_separator is_separator_def)
  next
    case False
    then have "py_rstrip (s @ [c]) = s @ [c]"
      by (simp add: py_rstrip_def)
    then show ?thesis by simp
  qed
qed

lemma spec_tokens_strip: "spec_tokens [] (py_strip s) = spec_tokens [] s"
  by (simp add: py_strip_def spec_tokens_lstrip spec_tokens_rstrip)

text \<open>
  C7. For an existing path whose suffix is neither \<^verbatim>\<open>.json\<close> nor \<^verbatim>\<open>.csv\<close> (another
  suffix or none), the loader's tokens are the maximal runs of characters between
  whitespace and commas, in the order of the file, and each is converted by \<^verbatim>\<open>int\<close>.
\<close>

theorem text_file_tokens:
  assumes "path_exists env p = Inr True" and "read_text env p = Inr contents"
    and "path_suffix p \<noteq> ''.json''" and "path_suffix p \<noteq> ''.csv''"
  shows "load_list env p = spec_load_text (int_max_str_digits env) contents"
  using assms
  by (simp add: load_list_def spec_load_text_def py_split_replace spec_tokens_strip int_each_spec)

lemma sample_txt:
  "path_exists sample_env ''nums.txt'' = Inr True"
  "read_text sample_env ''nums.txt'' = Inr nums_text"
  by (simp_all add: sample_env_def sample_files_def)

lemma sample_txt_suffix: "path_suffix ''nums.txt'' = ''.txt''"
  by code_simp

lemma sample_txt_spec:
  "spec_load_text 4300 nums_text =
     Inr (PyList [PyInt 1, PyInt 2, PyInt 3, PyInt 4, PyInt 5])"
  by code_simp

theorem text_file_tokens_witness:
  "load_list sample_env ''nums.txt'' = Inr (PyList [PyInt 1, PyInt 2, PyInt 3, PyInt 4, PyInt 5])"
  using text_file_tokens [of sample_env "''nums.txt''" nums_text]
  by (simp add: sample_txt sample_txt_suffix sample_txt_spec sample_csv)

section \<open>The JSON file and the literal argument\<close>








section \<open>The command line\<close>

text \<open>
  C9. Whatever the environment and the argument: an error raised by the loader, or by
  the encoder on what the loader returned, ends the run with nothing on stdout, the one
  line \<^verbatim>\<open>Error: \<close> followed by the error's text on stderr, and exit status 1; when both
  succeed, stdout is the base58 string and a newline, stderr is empty and the status
  is 0.
\<close>

theorem main_outcome:
  "(\<forall>e. load_list env source = Inl e \<longrightarrow>
        main env source = \<lparr>stdout = [], stderr = ''Error: '' @ exn_str e @ [CHR 0x0A], exit_code = 1\<rparr>)
   \<and> (\<forall>v e. load_list env source = Inr v \<and> list_to_base58 v = Inl e \<longrightarrow>
        main env source = \<lparr>stdout = [], stderr = ''Error: '' @ exn_str e @ [CHR 0x0A], exit_code = 1\<rparr>)
   \<and> (\<forall>v b58. load_list env source = Inr v \<and> list_to_base58 v = Inr b58 \<longrightarrow>
        main env source = \<lparr>stdout = b58 @ [CHR 0x0A], stderr = [], exit_code = 0\<rparr>)"
  by (simp add: main_def report_error_def print_key_def)

theorem main_outcome_witness:
  "main sample_env ''oops!'' =
     \<lparr>stdout = [], stderr = ''Error: invalid syntax (<unknown>, line 1)'' @ [CHR 0x0A], exit_code = 1\<rparr>
   \<and> main sample_env ''[1,2,3]'' =
     \<lparr>stdout = [], stderr = ''Error: Expected 32 or 64 integers, got 3'' @ [CHR 0x0A], exit_code = 1\<rparr>
   \<and> main sample_env zeros_text =
     \<lparr>stdout = replicate 32 (CHR ''1'') @ [CHR 0x0A], stderr = [], exit_code = 0\<rparr>"
  using main_outcome [of sample_env "''oops!''"] main_outcome [of sample_env "''[1,2,3]''"]
    main_outcome [of sample_env zeros_text]
  by (simp add: sample_literal_loads list_to_base58_zeros list_to_base58_123)

text \<open>
  C10. The JSON path hands the parsed value on unchecked. When the file holds an array
  of 32 numbers in the byte range whose first is a float (1.5, say) and the others are
  integers, the loader returns it, the length is 32, the range test finds nothing out of
  range, and the run fails in \<^verbatim>\<open>bytes(int_list)\<close> with a \<^verbatim>\<open>TypeError\<close> whose message is
  neither the range message nor a length message.
\<close>

theorem json_float_reaches_bytes:
  fixes q :: rat and ys :: "int list"
  assumes "path_exists env p = Inr True" and "path_suffix p = ''.json''"
    and "read_text env p = Inr contents"
    and "json_loads env (py_strip contents) = Inr (PyList (PyFloat (Finite q) # map PyInt ys))"
    and "0 \<le> q" and "q \<le> 255" and "length ys = 31" and "\<forall>y\<in>set ys. 0 \<le> y \<and> y \<le> 255"
  shows "load_list env p = Inr (PyList (PyFloat (Finite q) # map PyInt ys))
     \<and> py_len (PyList (PyFloat (Finite q) # map PyInt ys)) = Inr 32
     \<and> any_out_of_range (py_items (PyList (PyFloat (Finite q) # map PyInt ys))) = Inr False
     \<and> list_to_base58 (PyList (PyFloat (Finite q) # map PyInt ys)) =
         Inl (TypeError ([CHR 0x27] @ ''float'' @ [CHR 0x27] @ '' object cannot be interpreted as an integer''))
     \<and> main env p = \<lparr>stdout = [],
           stderr = ''Error: '' @ [CHR 0x27] @ ''float'' @ [CHR 0x27] @ '' object cannot be interpreted as an integer'' @ [CHR 0x0A],
           exit_code = 1\<rparr>
     \<and> [CHR 0x27] @ ''float'' @ [CHR 0x27] @ '' object cannot be interpreted as an integer'' \<noteq> ''All list items must be in 0-255 range''
     \<and> (\<forall>n. [CHR 0x27] @ ''float'' @ [CHR 0x27] @ '' object cannot be interpreted as an integer'' \<noteq> ''Expected 32 or 64 integers, got '' @ str_nat n)"
proof -
  let ?v = "PyList (PyFloat (Finite q) # map PyInt ys)"
  have load: "load_list env p = Inr ?v"
    using assms(1-4) by (simp add: load_list_def)
  have range: "any_out_of_range (py_items ?v) = Inr False"
    using assms(5,6,8) by (auto simp add: any_out_of_range_ints)
  have enc: "list_to_base58 ?v =
      Inl (TypeError ([CHR 0x27] @ ''float'' @ [CHR 0x27] @ '' object cannot be interpreted as an integer''))"
    using assms(7) range by (simp add: list_to_base58_def)
  have "main env p = report_error (TypeError ([CHR 0x27] @ ''float'' @ [CHR 0x27] @ '' object cannot be interpreted as an integer''))"
    using load enc by (simp add: main_def)
  then show ?thesis
    using load range enc assms(7) by (simp add: report_error_def)
qed

theorem json_float_reaches_bytes_witness:
  "main sample_env ''bad.json'' = \<lparr>stdout = [],
           stderr = ''Error: '' @ [CHR 0x27] @ ''float'' @ [CHR 0x27] @ '' object cannot be interpreted as an integer'' @ [CHR 0x0A],
           exit_code = 1\<rparr>
   \<and> load_list sample_env ''bad.json'' = Inr (PyList (PyFloat (Finite (3 / 2)) # map PyInt (replicate 31 0)))"
  using json_float_reaches_bytes [of sample_env "''bad.json''" "float_text @ [CHR 0x0A]" "3 / 2" "replicate 31 0"]
  by (simp add: sample_bad_json sample_bad_json_text)

end
